theory Spec2Isabelle
  imports Main "HOL-Library.Log_Nat"
begin

text \<open>
  A shallow embedding of the TomatoBar to Notion integration: the script that reads the
  timer's log of state transitions, reduces it to work periods, normalizes them to
  whole minutes, posts each one to a Notion database and queues the ones that fail in
  a recovery log. The embedding follows the script with the recovery log; its earlier
  version, which neither normalizes nor recovers, is not modelled.
\<close>

section \<open>Numbers and dates of the host language\<close>

text \<open>
  The program is TypeScript. A \<open>Date\<close> holds a time value, an integral number of
  milliseconds since the epoch, modelled as an \<open>int\<close>; the invalid date (time value
  NaN) and the clipping of time values beyond 8.64e15 are outside the model.
  A \<open>number\<close> is an IEEE 754 double, modelled by the rational it denotes (NaN and the
  infinities are outside the model). Sums, differences and products of integers are
  computed exactly, as doubles do below \<open>2 ^ 53\<close>; wherever the source divides, or
  multiplies a fractional number, the result is rounded by \<open>fl\<close> to the nearest double
  with 53 significant bits, ties to even (exponent range not bounded).
\<close>

type_synonym Date = int

type_synonym number = rat

definition roundTiesToEven :: "rat \<Rightarrow> int" where
  "roundTiesToEven x =
     (let f = \<lfloor>x\<rfloor>; r = x - of_int f
      in if r < 1 / 2 then f
         else if 1 / 2 < r then f + 1
         else if even f then f else f + 1)"

text \<open>\<open>binade x\<close> is the exponent \<open>e\<close> with \<open>2 ^ e \<le> |x| < 2 ^ (e + 1)\<close>, for \<open>x \<noteq> 0\<close>.\<close>

definition binade :: "rat \<Rightarrow> int" where
  "binade x =
     (if 1 \<le> \<bar>x\<bar> then bitlen \<lfloor>\<bar>x\<bar>\<rfloor> - 1
      else - bitlen (\<lceil>1 / \<bar>x\<bar>\<rceil> - 1))"

definition fl :: "rat \<Rightarrow> number" where
  "fl x =
     (if x = 0 then 0
      else let s = binade x - 52
           in of_int (roundTiesToEven (x * 2 powi (- s))) * 2 powi s)"

text \<open>
  The operators \<open>/\<close> and \<open>*\<close> on numbers. The source divides by the constants 1000,
  60 and \<open>MINUTE\<close> only, never by zero.
\<close>

definition num_div :: "number \<Rightarrow> number \<Rightarrow> number" where
  "num_div x y = fl (x / y)"

definition num_mul :: "number \<Rightarrow> number \<Rightarrow> number" where
  "num_mul x y = fl (x * y)"

text \<open>\<open>Math.round\<close>: the nearest integer, a tie going to the larger one.\<close>

definition Math_round :: "number \<Rightarrow> int" where
  "Math_round x = \<lfloor>x + 1 / 2\<rfloor>"

text \<open>\<open>new Date(v)\<close> drops the fraction of \<open>v\<close> (towards zero).\<close>

definition new_Date :: "number \<Rightarrow> Date" where
  "new_Date v = (if 0 \<le> v then \<lfloor>v\<rfloor> else \<lceil>v\<rceil>)"

section \<open>Data model\<close>

datatype TimerState = idle | work | rest

datatype EventKind = startStop | timerFired

text \<open>
  \<open>JsonLogLine\<close>: the object a log line holds (its field \<open>type\<close> is always
  \<open>'transition'\<close> and is left out).
\<close>

record JsonLogLine =
  event :: EventKind
  fromState :: TimerState
  toState :: TimerState
  timestamp :: number

record LogLine =
  stopping :: bool
  date :: Date

record WorkPeriod =
  start :: Date
  end' :: Date

text \<open>
  \<open>WorkNotionDatabasePropertySchema\<close>, flattened: \<open>Name\<close> is the text content of the
  title, the other two fields are the date range of \<open>'Working Time'\<close>.
\<close>

record WorkNotionDatabasePropertySchema =
  Name :: string
  Working_Time_start :: string
  Working_Time_end :: string

text \<open>
  What the host provides: the conversion of a number to text in a template literal,
  \<open>Date.prototype.toISOString\<close>, and the Notion client, given as the outcome of its
  \<open>n\<close>-th \<open>pages.create\<close> call (\<open>True\<close>: the page was created, \<open>False\<close>: the call threw).
\<close>

record Host =
  numberToString :: "number \<Rightarrow> string"
  toISOString :: "Date \<Rightarrow> string"
  pagesCreate :: "nat \<Rightarrow> WorkNotionDatabasePropertySchema \<Rightarrow> bool"

section \<open>Delivery records and recovery lines\<close>

text \<open>The three bytes of U+23F3 (hourglass) in UTF-8, then a space.\<close>

definition hourglass :: string where
  "hourglass = [CHR 0xE2, CHR 0x8F, CHR 0xB3, CHR '' '']"

definition createWorkProperty :: "Host \<Rightarrow> WorkPeriod \<Rightarrow> WorkNotionDatabasePropertySchema" where
  "createWorkProperty h wp =
     (let startISO = toISOString h (start wp);
          endISO = toISOString h (end' wp);
          minuteDuration = num_div (num_div (of_int (end' wp - start wp)) 1000) 60;
          titleContent = hourglass @ numberToString h minuteDuration
      in \<lparr>Name = titleContent, Working_Time_start = startISO, Working_Time_end = endISO\<rparr>)"

text \<open>
  \<open>getLogLinesFromWorkPeriod\<close> returns two JSON texts joined by a newline; the model
  returns the two objects, one per line.
\<close>

definition getLogLinesFromWorkPeriod :: "WorkPeriod \<Rightarrow> JsonLogLine list" where
  "getLogLinesFromWorkPeriod workPeriod =
     (let startJson = \<lparr>event = startStop, fromState = idle, toState = work,
                       timestamp = num_div (of_int (start workPeriod)) 1000\<rparr>;
          endJson = \<lparr>event = startStop, fromState = work, toState = idle,
                     timestamp = num_div (of_int (end' workPeriod)) 1000\<rparr>
      in [startJson, endJson])"

section \<open>Parser\<close>

definition unixToDate :: "number \<Rightarrow> Date" where
  "unixToDate unixTimestamp = new_Date (num_mul unixTimestamp 1000)"

definition parseLogLine :: "JsonLogLine \<Rightarrow> LogLine" where
  "parseLogLine jsonLine =
     (let date = unixToDate (timestamp jsonLine);
          stopping = (toState jsonLine = idle \<or> toState jsonLine = rest)
      in \<lparr>stopping = stopping, date = date\<rparr>)"

section \<open>Normalizer\<close>

definition MINUTE :: int where
  "MINUTE = 60 * 1000"

definition MAX_WORK_PERIOD :: int where
  "MAX_WORK_PERIOD = 25 * MINUTE"

definition MIN_WORK_PERIOD :: int where
  "MIN_WORK_PERIOD = 5 * MINUTE"

definition normalizeWorkPeriod :: "Date \<Rightarrow> Date \<Rightarrow> WorkPeriod option" where
  "normalizeWorkPeriod start_date end_date =
     (let startTimestamp = start_date;
          endTimestamp = end_date;
          duration = endTimestamp - startTimestamp;
          periods = Math_round (num_div (of_int duration) (of_int MINUTE));
          minuteDuration = periods * MINUTE;
          truncatedDuration = min minuteDuration MAX_WORK_PERIOD
      in if minuteDuration < MIN_WORK_PERIOD then None
         else Some \<lparr>start = startTimestamp, end' = startTimestamp + truncatedDuration\<rparr>)"

section \<open>Reducer\<close>

text \<open>
  The loop of \<open>getWorkPeriods\<close> keeps two variables across iterations: \<open>workStart\<close>
  (null when no interval is open) and the list \<open>workPeriods\<close>. \<open>workEnd\<close> is null at
  the start and at the end of every iteration.
\<close>

record ReducerState =
  workStart :: "Date option"
  workPeriods :: "WorkPeriod list"

definition reducer_step :: "ReducerState \<Rightarrow> LogLine \<Rightarrow> ReducerState" where
  "reducer_step s line =
     (if stopping line \<and> workStart s \<noteq> None then
        (let workEnd = date line
         in case normalizeWorkPeriod (the (workStart s)) workEnd of
              Some normalizedPeriod \<Rightarrow>
                \<lparr>workStart = None, workPeriods = workPeriods s @ [normalizedPeriod]\<rparr>
            | None \<Rightarrow> \<lparr>workStart = None, workPeriods = workPeriods s\<rparr>)
      else if \<not> stopping line \<and> workStart s = None then
        \<lparr>workStart = Some (date line), workPeriods = workPeriods s\<rparr>
      else s)"

fun reducer_loop :: "ReducerState \<Rightarrow> LogLine list \<Rightarrow> ReducerState" where
  "reducer_loop s [] = s"
| "reducer_loop s (line # rest_of_log) = reducer_loop (reducer_step s line) rest_of_log"

definition getWorkPeriods :: "LogLine list \<Rightarrow> WorkPeriod list" where
  "getWorkPeriods logLines =
     workPeriods (reducer_loop \<lparr>workStart = None, workPeriods = []\<rparr> logLines)"

section \<open>Files\<close>

text \<open>
  A log file is modelled by the list of its non-empty lines, as \<open>getFileLines\<close>
  returns them (the file's text split at newlines, empty lines filtered out), or
  \<open>None\<close> when the file does not exist. A line is the object \<open>JSON.parse\<close> returns
  for it, or \<open>Malformed\<close> when \<open>JSON.parse\<close> throws; \<open>JSON.stringify\<close> followed by
  \<open>JSON.parse\<close> gives back the same object, numbers included. The two paths
  \<open>resolvedPath\<close> and \<open>resolvedFailuresPath\<close> are taken to name distinct files;
  \<open>requests\<close> lists the \<open>notion.pages.create\<close> calls made so far.
\<close>

datatype text_line = Json JsonLogLine | Malformed

type_synonym log_file = "text_line list option"

record World =
  primaryLog :: log_file
  failuresLog :: log_file
  requests :: "WorkNotionDatabasePropertySchema list"

datatype error = SyntaxError

text \<open>A failed read is caught in \<open>getFileLines\<close> and gives no lines.\<close>

definition getFileLines :: "log_file \<Rightarrow> text_line list" where
  "getFileLines f = (case f of Some lines \<Rightarrow> lines | None \<Rightarrow> [])"

definition JSON_parse :: "text_line \<Rightarrow> error + JsonLogLine" where
  "JSON_parse line = (case line of Json jsonLine \<Rightarrow> Inr jsonLine | Malformed \<Rightarrow> Inl SyntaxError)"

text \<open>\<open>lines.map(parseLogLine)\<close>: the first line that does not parse ends the map.\<close>

fun map_parseLogLine :: "text_line list \<Rightarrow> error + LogLine list" where
  "map_parseLogLine [] = Inr []"
| "map_parseLogLine (line # lines) =
     (case JSON_parse line of
        Inl e \<Rightarrow> Inl e
      | Inr jsonLine \<Rightarrow>
          (case map_parseLogLine lines of
             Inl e \<Rightarrow> Inl e
           | Inr logLines \<Rightarrow> Inr (parseLogLine jsonLine # logLines)))"

definition parseLog :: "log_file \<Rightarrow> error + LogLine list" where
  "parseLog f = map_parseLogLine (getFileLines f)"

definition writeFile :: "text_line list \<Rightarrow> log_file" where
  "writeFile lines = Some lines"

definition appendFile :: "log_file \<Rightarrow> text_line list \<Rightarrow> log_file" where
  "appendFile f lines = Some (getFileLines f @ lines)"

section \<open>Recovery loader\<close>

text \<open>The result \<open>None\<close> is the \<open>undefined\<close> of the two early returns.\<close>

definition checkForFailures :: "World \<Rightarrow> (error + LogLine list option) \<times> World" where
  "checkForFailures w =
     (if failuresLog w = None then (Inr None, w)
      else let lines = getFileLines (failuresLog w)
           in if length lines = 0 then (Inr None, w)
              else (case parseLog (failuresLog w) of
                      Inl e \<Rightarrow> (Inl e, w)
                    | Inr logLines \<Rightarrow> (Inr (Some logLines), w\<lparr>failuresLog := writeFile []\<rparr>)))"

section \<open>Delivery pipeline\<close>

definition postWorkPeriod :: "Host \<Rightarrow> World \<Rightarrow> WorkPeriod \<Rightarrow> bool \<times> World" where
  "postWorkPeriod h w workPeriod =
     (let properties = createWorkProperty h workPeriod
      in (pagesCreate h (length (requests w)) properties,
          w\<lparr>requests := requests w @ [properties]\<rparr>))"

text \<open>One iteration of the delivery loop of \<open>main\<close>: the \<open>try\<close> and its \<open>catch\<close>.\<close>

definition deliver_step :: "Host \<Rightarrow> World \<Rightarrow> WorkPeriod \<Rightarrow> World" where
  "deliver_step h w workPeriod =
     (case postWorkPeriod h w workPeriod of
        (True, w') \<Rightarrow> w'
      | (False, w') \<Rightarrow>
          w'\<lparr>failuresLog :=
                appendFile (failuresLog w') (map Json (getLogLinesFromWorkPeriod workPeriod))\<rparr>)"

fun deliver_loop :: "Host \<Rightarrow> World \<Rightarrow> WorkPeriod list \<Rightarrow> World" where
  "deliver_loop h w [] = w"
| "deliver_loop h w (workPeriod # remaining) =
     deliver_loop h (deliver_step h w workPeriod) remaining"

section \<open>The program\<close>

text \<open>
  The environment variables the program validates; a variable that is not set, or set
  to the empty string, is falsy.
\<close>

record Env =
  NOTION_DATABASE_ID :: "string option"
  TOMOTABAR_LOG_PATH :: "string option"
  NOTION_API_KEY :: "string option"
  PATH_TO_NODE :: "string option"
  FAILURES_LOG_PATH :: "string option"

definition falsy :: "string option \<Rightarrow> bool" where
  "falsy v = (v = None \<or> v = Some [])"

text \<open>
  How a run ends: \<open>process.exit\<close> with a code, the end of the script, or the
  rejection of the script's promise by an exception nothing catches.
\<close>

datatype Outcome = Exit int | Completed | Uncaught error

text \<open>The lines \<open>main\<close> reduces: the primary log's, then the recovery log's.\<close>

definition readLogLines :: "World \<Rightarrow> (error + LogLine list) \<times> World" where
  "readLogLines w =
     (case parseLog (primaryLog w) of
        Inl e \<Rightarrow> (Inl e, w)
      | Inr logLines \<Rightarrow>
          (case checkForFailures w of
             (Inl e, w') \<Rightarrow> (Inl e, w')
           | (Inr None, w') \<Rightarrow> (Inr logLines, w')
           | (Inr (Some failures), w') \<Rightarrow> (Inr (logLines @ failures), w')))"

definition main :: "Host \<Rightarrow> Env \<Rightarrow> World \<Rightarrow> Outcome \<times> World" where
  "main h env w =
     (if falsy (NOTION_DATABASE_ID env) then (Exit 1, w)
      else if falsy (TOMOTABAR_LOG_PATH env) then (Exit 1, w)
      else if falsy (NOTION_API_KEY env) then (Exit 1, w)
      else if falsy (PATH_TO_NODE env) then (Exit 1, w)
      else if falsy (FAILURES_LOG_PATH env) then (Exit 1, w)
      else (case readLogLines w of
              (Inl e, w') \<Rightarrow> (Uncaught e, w')
            | (Inr logLines, w') \<Rightarrow>
                if length logLines = 0 then (Exit 1, w')
                else if \<not> stopping (last logLines) then (Exit 0, w')
                else let batch = getWorkPeriods logLines;
                         w'' = deliver_loop h w' batch
                     in (Completed, w''\<lparr>primaryLog := writeFile []\<rparr>)))"

section \<open>Notions used to state the properties\<close>

text \<open>
  The normalizer in the words of the specification: the duration in minutes, as an
  exact quotient, is rounded to the nearest whole number of periods (a tie goes up),
  the quantized duration is dropped below five minutes and clamped to twenty-five.
\<close>

definition normalize_spec :: "Date \<Rightarrow> Date \<Rightarrow> WorkPeriod option" where
  "normalize_spec s e =
     (let duration = e - s;
          periods = \<lfloor>(of_int duration :: rat) / 60000 + 1 / 2\<rfloor>;
          quantized = periods * 60000;
          clamped = min quantized (25 * 60000)
      in if quantized < 5 * 60000 then None else Some \<lparr>start = s, end' = s + clamped\<rparr>)"

text \<open>All five environment variables pass the validation at the start of \<open>main\<close>.\<close>

definition env_complete :: "Env \<Rightarrow> bool" where
  "env_complete env =
     (\<not> falsy (NOTION_DATABASE_ID env) \<and> \<not> falsy (TOMOTABAR_LOG_PATH env) \<and>
      \<not> falsy (NOTION_API_KEY env) \<and> \<not> falsy (PATH_TO_NODE env) \<and>
      \<not> falsy (FAILURES_LOG_PATH env))"

text \<open>
  A time value survives the recovery log when writing it in seconds
  (\<open>getTime() / 1000\<close>) and reading it back (\<open>new Date(timestamp * 1000)\<close>) returns it.
\<close>

definition survives_recovery :: "Date \<Rightarrow> bool" where
  "survives_recovery t = (unixToDate (num_div (of_int t) 1000) = t)"

text \<open>Fixtures for the concrete runs below.\<close>

definition example_env :: Env where
  "example_env =
     \<lparr>NOTION_DATABASE_ID = Some ''db'', TOMOTABAR_LOG_PATH = Some ''~/tomatobar.log'',
      NOTION_API_KEY = Some ''key'', PATH_TO_NODE = Some ''node'',
      FAILURES_LOG_PATH = Some ''~/failures.log''\<rparr>"

definition example_host :: "(nat \<Rightarrow> bool) \<Rightarrow> Host" where
  "example_host ok =
     \<lparr>numberToString = (\<lambda>x. if x = 10 then ''10'' else if x = 11 then ''11''
                           else if x = 25 then ''25'' else ''?''),
      toISOString = (\<lambda>d. []),
      pagesCreate = (\<lambda>n properties. ok n)\<rparr>"

definition transition :: "TimerState \<Rightarrow> TimerState \<Rightarrow> number \<Rightarrow> text_line" where
  "transition from to seconds =
     Json \<lparr>event = startStop, fromState = from, toState = to, timestamp = seconds\<rparr>"

section \<open>The rounding model\<close>

text \<open>
  Two values of the model against the doubles they stand for: the double nearest to
  one tenth is \<open>3602879701896397 / 2 ^ 55\<close>, and \<open>1.005 * 1000\<close> is the double just
  below 1005.
\<close>

lemma fl_one_tenth: "fl (1 / 10) = 3602879701896397 / 2 ^ 55"
  by code_simp

lemma num_mul_1005: "num_mul (num_div 1005 1000) 1000 = 1005 - 1 / 2 ^ 43"
  by code_simp

lemma roundTiesToEven_of_int: "roundTiesToEven (of_int n) = n"
  by (simp add: roundTiesToEven_def)

lemma roundTiesToEven_near:
  assumes "\<bar>y - of_int n\<bar> < 1 / 2"
  shows "roundTiesToEven y = n"
proof (cases "of_int n \<le> y")
  case True
  with assms have "y < of_int n + 1 / 2" by linarith
  with True have f: "\<lfloor>y\<rfloor> = n" by (intro floor_unique) linarith+
  with \<open>y < of_int n + 1 / 2\<close> show ?thesis
    by (simp add: roundTiesToEven_def)
next
  case False
  with assms have b: "of_int n - 1 / 2 < y" "y < of_int n" by linarith+
  then have f: "\<lfloor>y\<rfloor> = n - 1" by (intro floor_unique) simp_all
  with b show ?thesis
    by (simp add: roundTiesToEven_def)
qed

lemma roundTiesToEven_error: "\<bar>of_int (roundTiesToEven y) - y\<bar> \<le> 1 / 2"
proof -
  have "of_int \<lfloor>y\<rfloor> \<le> y" "y < of_int \<lfloor>y\<rfloor> + 1" by linarith+
  then show ?thesis
    by (auto simp: roundTiesToEven_def Let_def)
qed

lemma binade_eq:
  assumes "2 ^ n \<le> \<bar>x\<bar>" and "\<bar>x\<bar> < 2 ^ Suc n"
  shows "binade x = int n"
proof -
  have one: "1 \<le> \<bar>x\<bar>"
    using assms(1) one_le_power [of "2::rat" n] by linarith
  have lo: "(2::int) ^ n \<le> \<lfloor>\<bar>x\<bar>\<rfloor>"
    using assms(1) by (simp add: le_floor_iff)
  have hi: "\<lfloor>\<bar>x\<bar>\<rfloor> < (2::int) ^ Suc n"
    using assms(2) by (simp add: floor_less_iff)
  have "bitlen \<lfloor>\<bar>x\<bar>\<rfloor> \<le> int (Suc n)"
    using hi by (simp add: bitlen_le_iff_power nat_add_distrib)
  moreover have "int (Suc n) \<le> bitlen \<lfloor>\<bar>x\<bar>\<rfloor>"
    using lo by (simp add: bitlen_ge_iff_power nat_add_distrib)
  ultimately have "bitlen \<lfloor>\<bar>x\<bar>\<rfloor> = int n + 1" by simp
  with one show ?thesis by (simp add: binade_def)
qed

lemma binade_of_int:
  assumes "n \<noteq> 0" and "\<bar>n\<bar> < 2 ^ 53"
  shows "0 \<le> binade (of_int n)" and "binade (of_int n) \<le> 52"
proof -
  have "1 \<le> \<bar>n\<bar>"
    using assms(1) by linarith
  then have "(1::rat) \<le> of_int \<bar>n\<bar>"
    by (simp only: of_int_1_le_iff)
  then have one: "(1::rat) \<le> \<bar>of_int n\<bar>"
    by simp
  have b: "binade (of_int n) = bitlen \<bar>n\<bar> - 1"
    using one by (simp add: binade_def flip: of_int_abs)
  have "0 < \<bar>n\<bar>" using assms(1) by simp
  then have "1 \<le> bitlen \<bar>n\<bar>"
    by (simp add: bitlen_ge_iff_power)
  with b show "0 \<le> binade (of_int n)" by simp
  have "bitlen \<bar>n\<bar> \<le> 53"
    using assms(2) by (simp add: bitlen_le_iff_power)
  with b show "binade (of_int n) \<le> 52" by simp
qed

lemma fl_of_int:
  assumes "\<bar>n\<bar> < 2 ^ 53"
  shows "fl (of_int n) = of_int n"
proof (cases "n = 0")
  case True
  then show ?thesis by (simp add: fl_def)
next
  case False
  define k where "k = nat (52 - binade (of_int n))"
  have k: "- (binade (of_int n) - 52) = int k" "binade (of_int n) - 52 = - int k"
    using binade_of_int(2) [OF False assms] by (simp_all add: k_def)
  have "of_int n * 2 powi (int k) = (of_int (n * 2 ^ k) :: rat)"
    by simp
  then have "roundTiesToEven (of_int n * 2 powi (int k)) = n * 2 ^ k"
    by (simp only: roundTiesToEven_of_int)
  then show ?thesis
    using False by (simp add: fl_def Let_def k power_int_minus)
qed


lemma fl_binade:
  assumes "2 ^ n \<le> \<bar>x\<bar>" and "\<bar>x\<bar> < 2 ^ Suc n"
  shows "fl x = of_int (roundTiesToEven (x * 2 powi (52 - int n))) * 2 powi (int n - 52)"
proof -
  have "(0::rat) < 2 ^ n" by simp
  from this assms(1) have "0 < \<bar>x\<bar>" by (rule less_le_trans)
  then have "x \<noteq> 0" by simp
  then show ?thesis
    by (simp add: fl_def Let_def binade_eq [OF assms])
qed

lemma seconds_roundtrip_range:
  assumes "2 ^ 40 < t" and "t < 1000 * 2 ^ 31"
  shows "unixToDate (num_div (of_int t) 1000) = t"
proof -
  define T :: rat where "T = of_int t"
  define x :: rat where "x = T / 1000"
  define r where "r = roundTiesToEven (x * 2 ^ 22)"
  define y :: rat where "y = of_int r * (1 / 2 ^ 22) * 1000"
  have t: "2 ^ 40 + 1 \<le> T" "T \<le> 1000 * 2 ^ 31 - 1"
  proof -
    have "2 ^ 40 + 1 \<le> t" "t \<le> 1000 * 2 ^ 31 - 1" using assms by simp_all
    then have "(of_int (2 ^ 40 + 1) :: rat) \<le> of_int t"
      and "(of_int t :: rat) \<le> of_int (1000 * 2 ^ 31 - 1)"
      by (simp_all only: of_int_le_iff)
    then show "2 ^ 40 + 1 \<le> T" "T \<le> 1000 * 2 ^ 31 - 1"
      by (simp_all add: T_def)
  qed
  have x: "2 ^ 30 \<le> \<bar>x\<bar>" "\<bar>x\<bar> < 2 ^ Suc 30"
    using t by (simp_all add: x_def)
  have flx: "fl x = of_int r * (1 / 2 ^ 22)"
    using fl_binade [OF x] by (simp add: r_def power_int_minus_divide)
  define e :: rat where "e = of_int r - x * 2 ^ 22"
  have "\<bar>e\<bar> \<le> 1 / 2"
    unfolding e_def r_def by (rule roundTiesToEven_error)
  then have e: "- (1 / 2) \<le> e" "e \<le> 1 / 2"
    by (simp_all only: abs_le_iff) linarith
  have y: "y = T + e * (1000 / 2 ^ 22)"
    by (simp add: y_def e_def x_def field_simps)
  have ybounds: "2 ^ 40 \<le> \<bar>y\<bar>" "\<bar>y\<bar> < 2 ^ Suc 40"
    using e t by (simp_all add: y)
  have "\<bar>y * 2 ^ 12 - T * 2 ^ 12\<bar> < 1 / 2"
    using e by (simp add: y abs_less_iff field_simps)
  then have "\<bar>y * 2 ^ 12 - of_int (t * 2 ^ 12)\<bar> < 1 / 2"
    by (simp add: T_def)
  then have "roundTiesToEven (y * 2 ^ 12) = t * 2 ^ 12"
    by (rule roundTiesToEven_near)
  then have fly: "fl y = of_int t"
    using fl_binade [OF ybounds] by (simp add: power_int_minus_divide)
  have "num_div (of_int t) 1000 = of_int r * (1 / 2 ^ 22)"
    using flx by (simp only: num_div_def x_def T_def)
  moreover have "num_mul (of_int r * (1 / 2 ^ 22)) 1000 = of_int t"
    using fly by (simp only: num_mul_def y_def)
  ultimately have "unixToDate (num_div (of_int t) 1000) = new_Date (of_int t)"
    by (simp only: unixToDate_def)
  then show ?thesis
    by (simp add: new_Date_def)
qed

lemma seconds_roundtrip_whole:
  assumes "\<bar>n * 1000\<bar> < 2 ^ 53"
  shows "unixToDate (num_div (of_int (n * 1000)) 1000) = n * 1000"
proof -
  have "\<bar>n\<bar> < 2 ^ 53" using assms by (simp add: abs_mult)
  then have 1: "fl (of_int n) = of_int n" by (rule fl_of_int)
  have 2: "fl (of_int (n * 1000)) = of_int (n * 1000)"
    using assms by (rule fl_of_int)
  have "num_div (of_int (n * 1000)) 1000 = of_int n"
    by (simp add: num_div_def 1)
  moreover have "num_mul (of_int n) 1000 = of_int (n * 1000)"
    using 2 by (simp add: num_mul_def)
  ultimately show ?thesis
    by (simp add: unixToDate_def new_Date_def del: of_int_mult)
qed

lemma binade_lower:
  assumes "x \<noteq> 0"
  shows "2 powi (binade x) \<le> \<bar>x\<bar>"
proof (cases "1 \<le> \<bar>x\<bar>")
  case True
  define m where "m = \<lfloor>\<bar>x\<bar>\<rfloor>"
  have m: "1 \<le> m" using True by (simp add: m_def le_floor_iff)
  then have b: "1 \<le> bitlen m" by (simp add: bitlen_ge_iff_power)
  have "2 ^ nat (bitlen m - 1) \<le> m"
    using bitlen_bounds [of m] m by simp
  then have "(of_int (2 ^ nat (bitlen m - 1)) :: rat) \<le> of_int m"
    by (simp only: of_int_le_iff)
  also have "(of_int m :: rat) \<le> \<bar>x\<bar>" by (simp add: m_def)
  finally have "(2::rat) ^ nat (bitlen m - 1) \<le> \<bar>x\<bar>" by simp
  moreover have "binade x = bitlen m - 1"
    using True by (simp add: binade_def m_def)
  ultimately show ?thesis
    using b by (simp add: power_int_def)
next
  case False
  define y where "y = 1 / \<bar>x\<bar>"
  define m where "m = \<lceil>y\<rceil> - 1"
  have xpos: "0 < \<bar>x\<bar>" using assms by simp
  have y1: "1 < y" using False xpos by (simp add: y_def)
  then have m: "1 \<le> m" by (simp add: m_def less_ceiling_iff)
  have "m < 2 ^ nat (bitlen m)"
    using bitlen_bounds [of m] m by simp
  then have "m + 1 \<le> 2 ^ nat (bitlen m)" by simp
  then have "(of_int (m + 1) :: rat) \<le> of_int (2 ^ nat (bitlen m))"
    by (simp only: of_int_le_iff)
  moreover have "y \<le> of_int (m + 1)" by (simp add: m_def le_of_int_ceiling)
  ultimately have "y \<le> 2 ^ nat (bitlen m)" by simp
  then have "1 / 2 ^ nat (bitlen m) \<le> \<bar>x\<bar>"
    using xpos by (simp add: y_def field_simps)
  moreover have "binade x = - bitlen m"
    using False by (simp add: binade_def m_def y_def)
  moreover have "(2::rat) powi (- bitlen m) = 1 / 2 ^ nat (bitlen m)"
    using bitlen_nonneg [of m] by (simp add: power_int_minus_divide power_int_def power_one_over)
  ultimately show ?thesis
    by simp
qed

lemma binade_upper:
  assumes "x \<noteq> 0"
  shows "\<bar>x\<bar> < 2 powi (binade x + 1)"
proof (cases "1 \<le> \<bar>x\<bar>")
  case True
  define m where "m = \<lfloor>\<bar>x\<bar>\<rfloor>"
  have m: "1 \<le> m" using True by (simp add: m_def le_floor_iff)
  have "m < 2 ^ nat (bitlen m)"
    using bitlen_bounds [of m] m by simp
  then have "m + 1 \<le> 2 ^ nat (bitlen m)" by simp
  then have "(of_int (m + 1) :: rat) \<le> of_int (2 ^ nat (bitlen m))"
    by (simp only: of_int_le_iff)
  moreover have "\<bar>x\<bar> < of_int (m + 1)" by (simp add: m_def) linarith
  ultimately have "\<bar>x\<bar> < 2 ^ nat (bitlen m)" by simp
  moreover have "binade x + 1 = bitlen m"
    using True by (simp add: binade_def m_def)
  ultimately show ?thesis
    using bitlen_nonneg [of m] by (simp add: power_int_def)
next
  case False
  define y where "y = 1 / \<bar>x\<bar>"
  define m where "m = \<lceil>y\<rceil> - 1"
  have xpos: "0 < \<bar>x\<bar>" using assms by simp
  have y1: "1 < y" using False xpos by (simp add: y_def)
  then have m: "1 \<le> m" by (simp add: m_def less_ceiling_iff)
  then have b: "1 \<le> bitlen m" by (simp add: bitlen_ge_iff_power)
  have "2 ^ nat (bitlen m - 1) \<le> m"
    using bitlen_bounds [of m] m by simp
  then have "(of_int (2 ^ nat (bitlen m - 1)) :: rat) \<le> of_int m"
    by (simp only: of_int_le_iff)
  then have "(2::rat) ^ nat (bitlen m - 1) \<le> of_int m"
    by simp
  moreover have "of_int m < y" by (simp add: m_def) linarith
  ultimately have "2 ^ nat (bitlen m - 1) < y" by (rule le_less_trans)
  then have "\<bar>x\<bar> < 1 / 2 ^ nat (bitlen m - 1)"
    using xpos by (simp add: y_def field_simps)
  moreover have "binade x + 1 = - (bitlen m - 1)"
    using False by (simp add: binade_def m_def y_def)
  moreover have "(2::rat) powi (- (bitlen m - 1)) = 1 / 2 ^ nat (bitlen m - 1)"
    using b by (simp only: power_int_minus_divide) (simp add: power_int_def)
  ultimately show ?thesis
    by simp
qed

lemma binade_less:
  assumes "x \<noteq> 0" and "\<bar>x\<bar> < 2 ^ n"
  shows "binade x < int n"
proof (rule ccontr)
  assume "\<not> binade x < int n"
  then have "int n \<le> binade x" by simp
  then have "(2::rat) powi (int n) \<le> 2 powi (binade x)"
    by (rule power_int_increasing) simp
  also have "\<dots> \<le> \<bar>x\<bar>" using assms(1) by (rule binade_lower)
  finally show False using assms(2) by simp
qed

lemma fl_error:
  "\<bar>fl x - x\<bar> \<le> \<bar>x\<bar> / 2 ^ 53"
proof (cases "x = 0")
  case True
  then show ?thesis by (simp add: fl_def)
next
  case False
  define s where "s = binade x - 52"
  define z where "z = x * 2 powi (- s)"
  have u: "(2::rat) powi (- s) * 2 powi s = 1"
    by (simp add: power_int_minus)
  have x: "x = z * 2 powi s"
    using u by (simp add: z_def mult.assoc)
  have "fl x = of_int (roundTiesToEven z) * 2 powi s"
    using False by (simp add: fl_def Let_def s_def z_def)
  then have "fl x - x = of_int (roundTiesToEven z) * 2 powi s - z * 2 powi s"
    using x by simp
  then have "fl x - x = (of_int (roundTiesToEven z) - z) * 2 powi s"
    by (simp add: algebra_simps)
  then have "\<bar>fl x - x\<bar> = \<bar>of_int (roundTiesToEven z) - z\<bar> * 2 powi s"
    by (simp add: abs_mult)
  also have "\<dots> \<le> 1 / 2 * 2 powi s"
    by (intro mult_right_mono roundTiesToEven_error) simp
  also have "\<dots> = 2 powi (binade x) / 2 ^ 53"
    by (simp add: s_def power_int_diff)
  also have "\<dots> \<le> \<bar>x\<bar> / 2 ^ 53"
    using binade_lower [OF False] by (simp add: divide_right_mono)
  finally show ?thesis .
qed

lemma fl_half_int:
  assumes "\<bar>m\<bar> < 2 ^ 53"
  shows "fl (of_int m / 2) = of_int m / 2"
proof (cases "m = 0")
  case True
  then show ?thesis by (simp add: fl_def)
next
  case False
  define x :: rat where "x = of_int m / 2"
  have x0: "x \<noteq> 0" using False by (simp add: x_def)
  have "(of_int \<bar>m\<bar> :: rat) < of_int (2 ^ 53)"
    using assms by (simp only: of_int_less_iff)
  then have "\<bar>x\<bar> < 2 ^ 52" by (simp add: x_def)
  then have "binade x < 52" using binade_less [OF x0, of 52] by simp
  define j where "j = nat (51 - binade x)"
  have s: "- (binade x - 52) = int (Suc j)" "binade x - 52 = - int (Suc j)"
    using \<open>binade x < 52\<close> by (simp_all add: j_def)
  have p: "(2::rat) powi (int (Suc j)) = 2 ^ Suc j"
    "(2::rat) powi (- int (Suc j)) = 1 / 2 ^ Suc j"
    by (simp_all only: power_int_minus_divide power_int_of_nat)
  have "x * 2 ^ Suc j = of_int (m * 2 ^ j)"
    by (simp add: x_def)
  then have "roundTiesToEven (x * 2 powi (int (Suc j))) = m * 2 ^ j"
    by (simp only: roundTiesToEven_of_int p)
  then have "fl x = of_int (m * 2 ^ j) * (1 / 2 ^ Suc j)"
    using x0 by (simp only: fl_def Let_def s(2) minus_minus if_False p)
  also have "\<dots> = x"
    by (simp add: x_def)
  finally show ?thesis by (simp add: x_def)
qed

section \<open>Normalizer and reducer: whole minutes\<close>

lemma Math_round_of_int: "Math_round (of_int k) = k"
  unfolding Math_round_def by (rule floor_unique) simp_all

lemma normalizeWorkPeriod_Some:
  assumes "normalizeWorkPeriod s e = Some p"
  shows "\<exists>k. 5 \<le> k \<and> k \<le> 25 \<and> start p = s \<and> end' p = s + k * MINUTE"
proof -
  define periods where "periods = Math_round (num_div (of_int (e - s)) (of_int MINUTE))"
  from assms have ge: "\<not> periods * MINUTE < MIN_WORK_PERIOD"
    and p: "p = \<lparr>start = s, end' = s + min (periods * MINUTE) MAX_WORK_PERIOD\<rparr>"
    by (auto simp: normalizeWorkPeriod_def Let_def periods_def split: if_splits)
  from ge have 5: "5 \<le> periods"
    by (simp add: MINUTE_def MIN_WORK_PERIOD_def)
  have "min (periods * MINUTE) MAX_WORK_PERIOD = min periods 25 * MINUTE"
    by (simp add: MINUTE_def MAX_WORK_PERIOD_def min_def)
  with p 5 show ?thesis
    by (intro exI [of _ "min periods 25"]) simp
qed

lemma normalizeWorkPeriod_whole_minutes:
  assumes "5 \<le> k" and "k \<le> 25"
  shows "normalizeWorkPeriod s (s + k * MINUTE) = Some \<lparr>start = s, end' = s + k * MINUTE\<rparr>"
proof -
  have "\<bar>k\<bar> < 2 ^ 53" using assms by simp
  then have "fl (of_int k) = of_int k" by (rule fl_of_int)
  then have "Math_round (num_div (of_int (k * MINUTE)) (of_int MINUTE)) = k"
    by (simp add: num_div_def MINUTE_def Math_round_of_int)
  with assms show ?thesis
    by (simp add: normalizeWorkPeriod_def Let_def MINUTE_def MAX_WORK_PERIOD_def
        MIN_WORK_PERIOD_def)
qed

lemma reducer_step_workPeriods:
  "workPeriods (reducer_step s line) = workPeriods s \<or>
   (\<exists>t p. workStart s = Some t \<and> normalizeWorkPeriod t (date line) = Some p \<and>
      workPeriods (reducer_step s line) = workPeriods s @ [p])"
  by (auto simp: reducer_step_def Let_def split: option.splits)

lemma reducer_loop_normalized:
  assumes "\<forall>p \<in> set (workPeriods s). \<exists>k. 5 \<le> k \<and> k \<le> 25 \<and> end' p = start p + k * MINUTE"
  shows "\<forall>p \<in> set (workPeriods (reducer_loop s logLines)).
           \<exists>k. 5 \<le> k \<and> k \<le> 25 \<and> end' p = start p + k * MINUTE"
  using assms
proof (induction logLines arbitrary: s)
  case Nil
  then show ?case by simp
next
  case (Cons line logLines)
  have "\<forall>p \<in> set (workPeriods (reducer_step s line)).
          \<exists>k. 5 \<le> k \<and> k \<le> 25 \<and> end' p = start p + k * MINUTE"
    using reducer_step_workPeriods [of s line] Cons.prems
    by (auto dest!: normalizeWorkPeriod_Some)
  then show ?case
    using Cons.IH by simp
qed

lemma getWorkPeriods_normalized:
  assumes "p \<in> set (getWorkPeriods logLines)"
  shows "\<exists>k. 5 \<le> k \<and> k \<le> 25 \<and> end' p = start p + k * MINUTE"
  using reducer_loop_normalized [of "\<lparr>workStart = None, workPeriods = []\<rparr>" logLines] assms
  by (simp add: getWorkPeriods_def)

lemma normalizeWorkPeriod_fixed:
  assumes "normalizeWorkPeriod s e = Some p"
  shows "normalizeWorkPeriod (start p) (end' p) = Some p"
proof -
  from assms obtain k where k: "5 \<le> k" "k \<le> 25" "start p = s" "end' p = s + k * MINUTE"
    using normalizeWorkPeriod_Some by blast
  then have "p = \<lparr>start = s, end' = s + k * MINUTE\<rparr>" by simp
  with k show ?thesis
    using normalizeWorkPeriod_whole_minutes [of k s] by simp
qed

section \<open>Normalizer: rounding of the periods\<close>

lemma periods_exact:
  assumes "\<bar>d\<bar> < 2 ^ 53"
  shows "Math_round (num_div (of_int d) 60000) = \<lfloor>(of_int d :: rat) / 60000 + 1 / 2\<rfloor>"
proof -
  define x :: rat where "x = of_int d / 60000"
  define n where "n = (d + 30000) div 60000"
  define r where "r = (d + 30000) mod 60000"
  define N :: rat where "N = of_int n"
  define R :: rat where "R = of_int r"
  have split: "d + 30000 = 60000 * n + r" by (simp add: n_def r_def)
  have "(of_int (d + 30000) :: rat) = of_int (60000 * n + r)"
    by (simp only: split)
  then have x: "x = N - 1 / 2 + R / 60000"
    by (simp add: x_def N_def R_def)
  have "0 \<le> r" "r \<le> 59999" by (simp_all add: r_def)
  then have "(of_int 0 :: rat) \<le> of_int r" "(of_int r :: rat) \<le> of_int 59999"
    by (simp_all only: of_int_le_iff)
  then have R: "0 \<le> R" "R \<le> 59999" by (simp_all add: R_def)
  have exact: "\<lfloor>x + 1 / 2\<rfloor> = n"
    using R by (intro floor_unique) (simp_all add: x N_def [symmetric])
  have "(of_int \<bar>d\<bar> :: rat) < of_int (2 ^ 53)"
    using assms by (simp only: of_int_less_iff)
  then have "\<bar>x\<bar> / 2 ^ 53 < 1 / 60000" by (simp add: x_def)
  with fl_error [of x] have err: "\<bar>fl x - x\<bar> < 1 / 60000" by simp
  have "\<lfloor>fl x + 1 / 2\<rfloor> = n"
  proof (cases "r = 0")
    case True
    then have half: "x = of_int (2 * n - 1) / 2" by (simp add: x R_def N_def)
    have "\<bar>2 * n - 1\<bar> < 2 ^ 53" using assms split True by simp
    then have "fl x = x" unfolding half by (rule fl_half_int)
    with exact show ?thesis by simp
  next
    case False
    with \<open>0 \<le> r\<close> have "1 \<le> r" by simp
    then have "(of_int 1 :: rat) \<le> of_int r" by (simp only: of_int_le_iff)
    then have "1 \<le> R" by (simp add: R_def)
    with R(2) have "N + 1 / 60000 \<le> x + 1 / 2" "x + 1 / 2 \<le> N + 59999 / 60000"
      by (simp_all add: x)
    moreover from err have "x - fl x < 1 / 60000" "fl x - x < 1 / 60000"
      by linarith+
    ultimately have "N \<le> fl x + 1 / 2" "fl x + 1 / 2 < N + 1"
      by linarith+
    then show ?thesis
      unfolding N_def by (intro floor_unique)
  qed
  with exact show ?thesis
    by (simp add: Math_round_def num_div_def x_def)
qed

lemma periods_large:
  assumes "2 ^ 53 \<le> d"
  shows "25 \<le> Math_round (num_div (of_int d) 60000)"
    and "25 \<le> \<lfloor>(of_int d :: rat) / 60000 + 1 / 2\<rfloor>"
proof -
  define x :: rat where "x = of_int d / 60000"
  have "(of_int (2 ^ 53) :: rat) \<le> of_int d"
    using assms by (simp only: of_int_le_iff)
  then have x: "2 ^ 53 / 60000 \<le> x" by (simp add: x_def)
  then have "\<bar>x\<bar> = x" by simp
  with fl_error [of x] have "\<bar>fl x - x\<bar> \<le> x / 2 ^ 53" by (simp only:)
  then have "x - fl x \<le> x / 2 ^ 53" by linarith
  moreover have "x / 2 ^ 53 \<le> x / 2" using x by simp
  ultimately have "x / 2 \<le> fl x" by linarith
  with x have "of_int 25 \<le> fl x + 1 / 2" by simp
  then show "25 \<le> Math_round (num_div (of_int d) 60000)"
    by (simp only: Math_round_def num_div_def x_def le_floor_iff)
  from x have "of_int 25 \<le> x + 1 / 2" by simp
  then show "25 \<le> \<lfloor>(of_int d :: rat) / 60000 + 1 / 2\<rfloor>"
    by (simp only: x_def le_floor_iff)
qed

lemma periods_negative:
  assumes "d \<le> - (2 ^ 53)"
  shows "Math_round (num_div (of_int d) 60000) < 0"
    and "\<lfloor>(of_int d :: rat) / 60000 + 1 / 2\<rfloor> < 0"
proof -
  define x :: rat where "x = of_int d / 60000"
  have "(of_int d :: rat) \<le> of_int (- (2 ^ 53))"
    using assms by (simp only: of_int_le_iff)
  then have x: "x \<le> - (2 ^ 53 / 60000)" by (simp add: x_def)
  then have "\<bar>x\<bar> = - x" by simp
  with fl_error [of x] have "\<bar>fl x - x\<bar> \<le> - x / 2 ^ 53" by (simp only:)
  then have "fl x - x \<le> - x / 2 ^ 53" by linarith
  moreover have "- x / 2 ^ 53 \<le> - x / 2" using x by simp
  ultimately have "fl x \<le> x / 2" by linarith
  with x have "fl x + 1 / 2 < of_int 0" by simp
  then show "Math_round (num_div (of_int d) 60000) < 0"
    by (simp only: Math_round_def num_div_def x_def floor_less_iff)
  from x have "x + 1 / 2 < of_int 0" by simp
  then show "\<lfloor>(of_int d :: rat) / 60000 + 1 / 2\<rfloor> < 0"
    by (simp only: x_def floor_less_iff)
qed

lemma normalizeWorkPeriod_refines:
  "normalizeWorkPeriod s e = normalize_spec s e"
proof -
  define P where "P = Math_round (num_div (of_int (e - s)) 60000)"
  define Q where "Q = \<lfloor>(of_int (e - s) :: rat) / 60000 + 1 / 2\<rfloor>"
  have code: "normalizeWorkPeriod s e =
      (if P * 60000 < 300000 then None
       else Some \<lparr>start = s, end' = s + min (P * 60000) 1500000\<rparr>)"
    by (simp add: normalizeWorkPeriod_def Let_def MINUTE_def MAX_WORK_PERIOD_def
        MIN_WORK_PERIOD_def P_def)
  have spec: "normalize_spec s e =
      (if Q * 60000 < 300000 then None
       else Some \<lparr>start = s, end' = s + min (Q * 60000) 1500000\<rparr>)"
    by (simp add: normalize_spec_def Let_def Q_def)
  consider "\<bar>e - s\<bar> < 2 ^ 53" | "2 ^ 53 \<le> e - s" | "e - s \<le> - (2 ^ 53)"
    by linarith
  then show ?thesis
  proof cases
    case 1
    then have "P = Q" unfolding P_def Q_def by (rule periods_exact)
    with code spec show ?thesis by simp
  next
    case 2
    then have "25 \<le> P" "25 \<le> Q" unfolding P_def Q_def by (rule periods_large)+
    with code spec show ?thesis by simp
  next
    case 3
    then have "P < 0" "Q < 0" unfolding P_def Q_def by (rule periods_negative)+
    with code spec show ?thesis by simp
  qed
qed

section \<open>Normalizer: the specified policy\<close>

text \<open>
  C1. \<open>normalizeWorkPeriod\<close> computes what the specification's normalizer computes:
  the periods are the duration over 60000 rounded half up, the quantized duration is
  the periods times 60000, the result is null when that is below five minutes and
  otherwise the interval from \<open>start\<close> to \<open>start\<close> plus the smaller of the quantized
  duration and twenty-five minutes. In particular (0, 3 min) is dropped, (0, 5 min)
  is kept, (0, 30 min) becomes (0, 25 min) and (0, 7.6 min) becomes (0, 8 min).
\<close>
theorem normalizeWorkPeriod_meets_spec:
  "normalizeWorkPeriod s e = normalize_spec s e \<and>
   normalizeWorkPeriod 0 180000 = None \<and>
   normalizeWorkPeriod 0 300000 = Some \<lparr>start = 0, end' = 300000\<rparr> \<and>
   normalizeWorkPeriod 0 1800000 = Some \<lparr>start = 0, end' = 1500000\<rparr> \<and>
   normalizeWorkPeriod 0 456000 = Some \<lparr>start = 0, end' = 480000\<rparr>"
proof -
  have "normalizeWorkPeriod 0 180000 = None"
    and "normalizeWorkPeriod 0 300000 = Some \<lparr>start = 0, end' = 300000\<rparr>"
    and "normalizeWorkPeriod 0 1800000 = Some \<lparr>start = 0, end' = 1500000\<rparr>"
    and "normalizeWorkPeriod 0 456000 = Some \<lparr>start = 0, end' = 480000\<rparr>"
    by code_simp+
  then show ?thesis
    by (simp only: normalizeWorkPeriod_refines simp_thms)
qed

section \<open>Reducer: emitted intervals\<close>

text \<open>
  C6. Every interval the Reducer emits has its end after its start. This holds for
  every sequence of log lines, chronological or not: an interval is emitted only
  through the normalizer, which keeps at least five whole minutes.
\<close>
theorem reducer_emits_positive_intervals:
  "\<forall>p \<in> set (getWorkPeriods logLines). start p < end' p"
proof
  fix p assume "p \<in> set (getWorkPeriods logLines)"
  then obtain k where "5 \<le> k" "end' p = start p + k * MINUTE"
    using getWorkPeriods_normalized by blast
  then show "start p < end' p" by (simp add: MINUTE_def)
qed

theorem reducer_emits_positive_intervals_witness:
  "getWorkPeriods [\<lparr>stopping = False, date = 100000\<rparr>, \<lparr>stopping = True, date = 750000\<rparr>]
     = [\<lparr>start = 100000, end' = 760000\<rparr>] \<and>
   start \<lparr>start = 100000, end' = 760000\<rparr> < end' \<lparr>start = 100000, end' = 760000\<rparr>"
proof -
  have "getWorkPeriods [\<lparr>stopping = False, date = 100000\<rparr>, \<lparr>stopping = True, date = 750000\<rparr>]
     = [\<lparr>start = 100000, end' = 760000\<rparr>]"
    by code_simp
  then show ?thesis
    using reducer_emits_positive_intervals
      [of "[\<lparr>stopping = False, date = 100000\<rparr>, \<lparr>stopping = True, date = 750000\<rparr>]"]
    by simp
qed

section \<open>Normalizer: idempotence\<close>

text \<open>
  C10. Normalization is idempotent: when \<open>normalizeWorkPeriod\<close> returns a period \<open>p\<close>,
  applying it to \<open>(start p, end' p)\<close> returns \<open>p\<close> again.
\<close>
theorem normalizeWorkPeriod_idempotent:
  assumes "normalizeWorkPeriod s e = Some p"
  shows "normalizeWorkPeriod (start p) (end' p) = Some p"
  using assms by (rule normalizeWorkPeriod_fixed)

theorem normalizeWorkPeriod_idempotent_witness:
  "normalizeWorkPeriod 0 1800000 = Some \<lparr>start = 0, end' = 1500000\<rparr> \<and>
   normalizeWorkPeriod 0 1500000 = Some \<lparr>start = 0, end' = 1500000\<rparr>"
proof -
  have 1: "normalizeWorkPeriod 0 1800000 = Some \<lparr>start = 0, end' = 1500000\<rparr>"
    by code_simp
  from normalizeWorkPeriod_idempotent [OF 1] 1 show ?thesis by simp
qed

section \<open>Effects of the pipeline\<close>

lemma deliver_step_requests:
  "requests (deliver_step h w wp) = requests w @ [createWorkProperty h wp]"
  by (simp add: deliver_step_def postWorkPeriod_def Let_def split: bool.splits)

lemma deliver_step_primaryLog: "primaryLog (deliver_step h w wp) = primaryLog w"
  by (simp add: deliver_step_def postWorkPeriod_def Let_def split: bool.splits)

lemma deliver_loop_requests:
  "requests (deliver_loop h w batch) = requests w @ map (createWorkProperty h) batch"
  by (induction batch arbitrary: w) (simp_all add: deliver_step_requests)

lemma deliver_loop_primaryLog: "primaryLog (deliver_loop h w batch) = primaryLog w"
  by (induction batch arbitrary: w) (simp_all add: deliver_step_primaryLog)

lemma checkForFailures_frame:
  "primaryLog (snd (checkForFailures w)) = primaryLog w \<and>
   requests (snd (checkForFailures w)) = requests w"
  by (simp add: checkForFailures_def Let_def split: sum.splits)

lemma readLogLines_frame:
  assumes "readLogLines w = (r, w')"
  shows "primaryLog w' = primaryLog w \<and> requests w' = requests w"
proof (cases "parseLog (primaryLog w)")
  case (Inl e)
  with assms show ?thesis by (simp add: readLogLines_def)
next
  case (Inr logLines)
  obtain r' w1 where c: "checkForFailures w = (r', w1)" by (cases "checkForFailures w")
  with assms Inr have "w' = w1"
    by (auto simp: readLogLines_def split: sum.splits option.splits)
  with c checkForFailures_frame [of w] show ?thesis by simp
qed

section \<open>Runs that end inside a work period\<close>

text \<open>
  C5. A run in progress delivers nothing: in every run whose merged log (the lines
  \<open>readLogLines\<close> returns) is non-empty and ends with a non-stopping line, \<open>main\<close>
  makes no \<open>pages.create\<close> call and leaves the primary log as it was; with a
  complete environment it ends by \<open>process.exit(0)\<close>.
\<close>
theorem in_progress_run_delivers_nothing:
  assumes "readLogLines w = (Inr logLines, w')"
    and "logLines \<noteq> []"
    and "\<not> stopping (last logLines)"
  shows "requests (snd (main h env w)) = requests w \<and>
         primaryLog (snd (main h env w)) = primaryLog w \<and>
         (env_complete env \<longrightarrow> fst (main h env w) = Exit 0)"
  using assms readLogLines_frame [OF assms(1)]
  by (simp add: main_def env_complete_def)

theorem in_progress_run_delivers_nothing_witness:
  "readLogLines \<lparr>primaryLog = Some [transition idle work 100], failuresLog = None, requests = []\<rparr>
     = (Inr [\<lparr>stopping = False, date = 100000\<rparr>],
        \<lparr>primaryLog = Some [transition idle work 100], failuresLog = None, requests = []\<rparr>) \<and>
   main (example_host (\<lambda>n. True)) example_env
     \<lparr>primaryLog = Some [transition idle work 100], failuresLog = None, requests = []\<rparr>
     = (Exit 0, \<lparr>primaryLog = Some [transition idle work 100], failuresLog = None, requests = []\<rparr>)"
proof -
  let ?w = "\<lparr>primaryLog = Some [transition idle work 100], failuresLog = None, requests = []\<rparr>"
  have r: "readLogLines ?w = (Inr [\<lparr>stopping = False, date = 100000\<rparr>], ?w)"
    by code_simp
  have e: "env_complete example_env"
    by (simp add: env_complete_def example_env_def falsy_def)
  have "requests (snd (main (example_host (\<lambda>n. True)) example_env ?w)) = requests ?w \<and>
        primaryLog (snd (main (example_host (\<lambda>n. True)) example_env ?w)) = primaryLog ?w \<and>
        (env_complete example_env \<longrightarrow> fst (main (example_host (\<lambda>n. True)) example_env ?w) = Exit 0)"
    by (rule in_progress_run_delivers_nothing [OF r]) simp_all
  moreover have "failuresLog (snd (main (example_host (\<lambda>n. True)) example_env ?w)) = None"
    using r e by (simp add: main_def env_complete_def)
  ultimately have "main (example_host (\<lambda>n. True)) example_env ?w = (Exit 0, ?w)"
    using e by (cases "main (example_host (\<lambda>n. True)) example_env ?w") (auto intro: World.equality)
  with r show ?thesis by simp
qed

section \<open>Delivery of the whole batch\<close>

text \<open>
  C8. In a run that reaches delivery (complete environment, merged log non-empty and
  ending with a stopping line), \<open>pages.create\<close> is called once for every interval of
  the batch, in order, whatever the outcome of the earlier calls (the host \<open>h\<close> is
  arbitrary), and afterwards the primary log is truncated to empty.
\<close>
theorem delivery_attempts_every_interval:
  assumes "env_complete env"
    and "readLogLines w = (Inr logLines, w')"
    and "logLines \<noteq> []"
    and "stopping (last logLines)"
  shows "fst (main h env w) = Completed \<and>
         requests (snd (main h env w))
           = requests w @ map (createWorkProperty h) (getWorkPeriods logLines) \<and>
         primaryLog (snd (main h env w)) = Some []"
  using assms readLogLines_frame [OF assms(2)]
  by (simp add: main_def env_complete_def Let_def deliver_loop_requests writeFile_def)

theorem delivery_attempts_every_interval_witness:
  "main (example_host (\<lambda>n. n \<noteq> 0)) example_env
     \<lparr>primaryLog = Some [transition idle work 100, transition work rest 750,
                          transition rest work 2000, transition work idle 2600],
      failuresLog = None, requests = []\<rparr>
   = (Completed,
      \<lparr>primaryLog = Some [],
       failuresLog = Some [transition idle work 100, transition work idle 760],
       requests = [\<lparr>Name = hourglass @ ''11'', Working_Time_start = [], Working_Time_end = []\<rparr>,
                   \<lparr>Name = hourglass @ ''10'', Working_Time_start = [], Working_Time_end = []\<rparr>]\<rparr>)"
proof -
  let ?w = "\<lparr>primaryLog = Some [transition idle work 100, transition work rest 750,
                          transition rest work 2000, transition work idle 2600],
      failuresLog = None, requests = []\<rparr>"
  let ?ls = "[\<lparr>stopping = False, date = 100000\<rparr>, \<lparr>stopping = True, date = 750000\<rparr>,
              \<lparr>stopping = False, date = 2000000\<rparr>, \<lparr>stopping = True, date = 2600000\<rparr>]"
  let ?h = "example_host (\<lambda>n. n \<noteq> 0)"
  have e: "env_complete example_env"
    by (simp add: env_complete_def example_env_def falsy_def)
  have r: "readLogLines ?w = (Inr ?ls, ?w)"
    by code_simp
  have g: "getWorkPeriods ?ls
      = [\<lparr>start = 100000, end' = 760000\<rparr>, \<lparr>start = 2000000, end' = 2600000\<rparr>]"
    by code_simp
  have c: "createWorkProperty ?h \<lparr>start = 100000, end' = 760000\<rparr>
      = \<lparr>Name = hourglass @ ''11'', Working_Time_start = [], Working_Time_end = []\<rparr>"
    "createWorkProperty ?h \<lparr>start = 2000000, end' = 2600000\<rparr>
      = \<lparr>Name = hourglass @ ''10'', Working_Time_start = [], Working_Time_end = []\<rparr>"
    by code_simp+
  have f: "failuresLog (snd (main ?h example_env ?w))
      = Some [transition idle work 100, transition work idle 760]"
    by code_simp
  have "fst (main ?h example_env ?w) = Completed \<and>
        requests (snd (main ?h example_env ?w))
          = requests ?w @ map (createWorkProperty ?h) (getWorkPeriods ?ls) \<and>
        primaryLog (snd (main ?h example_env ?w)) = Some []"
    by (rule delivery_attempts_every_interval [OF e r]) simp_all
  with f g c show ?thesis
    by (cases "main ?h example_env ?w") (auto intro: World.equality)
qed

section \<open>Recovery loader: merge and clear\<close>

text \<open>
  C7. The recovery loader runs once, inside \<open>readLogLines\<close>, before reduction. When the
  recovery log does not exist or has no lines it contributes nothing and changes
  nothing; otherwise its parsed lines are appended after the primary log's lines and
  the recovery log is truncated to empty.
\<close>
theorem recovery_loader:
  assumes "parseLog (primaryLog w) = Inr primaryLines"
  shows "(getFileLines (failuresLog w) = [] \<longrightarrow>
            checkForFailures w = (Inr None, w) \<and> readLogLines w = (Inr primaryLines, w)) \<and>
         (getFileLines (failuresLog w) \<noteq> [] \<and> parseLog (failuresLog w) = Inr recoveryLines \<longrightarrow>
            checkForFailures w = (Inr (Some recoveryLines), w\<lparr>failuresLog := Some []\<rparr>) \<and>
            readLogLines w = (Inr (primaryLines @ recoveryLines), w\<lparr>failuresLog := Some []\<rparr>))"
  using assms
  by (auto simp: checkForFailures_def readLogLines_def Let_def writeFile_def getFileLines_def
      split: option.splits)

theorem recovery_loader_witness:
  "readLogLines \<lparr>primaryLog = Some [transition idle work 100, transition work rest 1600],
                 failuresLog = None, requests = []\<rparr>
     = (Inr [\<lparr>stopping = False, date = 100000\<rparr>, \<lparr>stopping = True, date = 1600000\<rparr>],
        \<lparr>primaryLog = Some [transition idle work 100, transition work rest 1600],
         failuresLog = None, requests = []\<rparr>) \<and>
   readLogLines \<lparr>primaryLog = Some [transition idle work 5000, transition work rest 6500],
                 failuresLog = Some [transition idle work 100, transition work idle 760],
                 requests = []\<rparr>
     = (Inr [\<lparr>stopping = False, date = 5000000\<rparr>, \<lparr>stopping = True, date = 6500000\<rparr>,
             \<lparr>stopping = False, date = 100000\<rparr>, \<lparr>stopping = True, date = 760000\<rparr>],
        \<lparr>primaryLog = Some [transition idle work 5000, transition work rest 6500],
         failuresLog = Some [], requests = []\<rparr>)"
proof -
  let ?w1 = "\<lparr>primaryLog = Some [transition idle work 100, transition work rest 1600],
                 failuresLog = None, requests = []\<rparr>"
  let ?w2 = "\<lparr>primaryLog = Some [transition idle work 5000, transition work rest 6500],
                 failuresLog = Some [transition idle work 100, transition work idle 760],
                 requests = []\<rparr>"
  have p1: "parseLog (primaryLog ?w1)
      = Inr [\<lparr>stopping = False, date = 100000\<rparr>, \<lparr>stopping = True, date = 1600000\<rparr>]"
    by code_simp
  have p2: "parseLog (primaryLog ?w2)
      = Inr [\<lparr>stopping = False, date = 5000000\<rparr>, \<lparr>stopping = True, date = 6500000\<rparr>]"
    by code_simp
  have f2: "parseLog (failuresLog ?w2)
      = Inr [\<lparr>stopping = False, date = 100000\<rparr>, \<lparr>stopping = True, date = 760000\<rparr>]"
    by code_simp
  show ?thesis
    using recovery_loader [OF p1, of "[]"]
      recovery_loader [OF p2, of "[\<lparr>stopping = False, date = 100000\<rparr>, \<lparr>stopping = True, date = 760000\<rparr>]"]
      f2
    by (simp add: getFileLines_def)
qed

section \<open>Recovery log: round trip\<close>

lemma survives_recovery_range:
  assumes "2 ^ 40 < t" and "t < 1000 * 2 ^ 31"
  shows "survives_recovery t"
  unfolding survives_recovery_def using assms by (rule seconds_roundtrip_range)

lemma survives_recovery_whole_seconds:
  assumes "\<bar>n * 1000\<bar> < 2 ^ 53"
  shows "survives_recovery (n * 1000)"
  unfolding survives_recovery_def using assms by (rule seconds_roundtrip_whole)

lemma not_survives_recovery_1005:
  "unixToDate (num_div (of_int 1005) 1000) = 1004 \<and> \<not> survives_recovery 1005"
proof -
  have "unixToDate (num_div (of_int 1005) 1000) = 1004" by code_simp
  then show ?thesis by (simp add: survives_recovery_def)
qed

lemma getWorkPeriods_pair:
  "getWorkPeriods [\<lparr>stopping = False, date = s\<rparr>, \<lparr>stopping = True, date = e\<rparr>]
     = (case normalizeWorkPeriod s e of None \<Rightarrow> [] | Some p \<Rightarrow> [p])"
  by (simp add: getWorkPeriods_def reducer_step_def split: option.splits)

lemma recovery_roundtrip:
  assumes "normalizeWorkPeriod s e = Some wp"
    and "survives_recovery (start wp)"
    and "survives_recovery (end' wp)"
  shows "getWorkPeriods (map parseLogLine (getLogLinesFromWorkPeriod wp)) = [wp]"
proof -
  have "map parseLogLine (getLogLinesFromWorkPeriod wp)
          = [\<lparr>stopping = False, date = start wp\<rparr>, \<lparr>stopping = True, date = end' wp\<rparr>]"
    using assms(2,3)
    by (simp add: getLogLinesFromWorkPeriod_def parseLogLine_def survives_recovery_def)
  moreover have "normalizeWorkPeriod (start wp) (end' wp) = Some wp"
    using assms(1) by (rule normalizeWorkPeriod_fixed)
  ultimately show ?thesis
    by (simp add: getWorkPeriods_pair)
qed


lemma recovery_roundtrip_2004_2038:
  assumes "normalizeWorkPeriod s e = Some wp"
    and "2 ^ 40 < start wp"
    and "end' wp < 1000 * 2 ^ 31"
  shows "getWorkPeriods (map parseLogLine (getLogLinesFromWorkPeriod wp)) = [wp]"
proof -
  from assms(1) obtain k where "5 \<le> k" "end' wp = start wp + k * MINUTE"
    using normalizeWorkPeriod_Some by blast
  then have "start wp < end' wp" by (simp add: MINUTE_def)
  with assms(2,3) have "survives_recovery (start wp)" "survives_recovery (end' wp)"
    by (simp_all add: survives_recovery_range)
  with assms(1) show ?thesis by (rule recovery_roundtrip)
qed

text \<open>
  C3 (as amended). Round trip of the recovery log: for every work period \<open>wp\<close> that
  the normalizer returns, and whose start and end both survive being written in
  seconds and read back, parsing the two lines serialized from \<open>wp\<close> and reducing
  them gives exactly \<open>[wp]\<close>. Whole seconds survive, and so does every time value
  between \<open>2 ^ 40\<close> ms and \<open>2 ^ 31\<close> s after the epoch (3 November 2004 to 19 January
  2038); 1005 ms does not. A period that is not normalized is normalized again by the
  Reducer: (0, 3 min) comes back as nothing.
\<close>

theorem recovery_roundtrip_normalized:
  assumes "normalizeWorkPeriod s e = Some wp"
    and "survives_recovery (start wp)"
    and "survives_recovery (end' wp)"
  shows "getWorkPeriods (map parseLogLine (getLogLinesFromWorkPeriod wp)) = [wp]"
  using assms by (rule recovery_roundtrip)

theorem recovery_roundtrip_normalized_witness:
  "normalizeWorkPeriod 1700000000123 1700000290000
     = Some \<lparr>start = 1700000000123, end' = 1700000300123\<rparr> \<and>
   getWorkPeriods (map parseLogLine
       (getLogLinesFromWorkPeriod \<lparr>start = 1700000000123, end' = 1700000300123\<rparr>))
     = [\<lparr>start = 1700000000123, end' = 1700000300123\<rparr>]"
proof -
  have n: "normalizeWorkPeriod 1700000000123 1700000290000
     = Some \<lparr>start = 1700000000123, end' = 1700000300123\<rparr>"
    by code_simp
  have "survives_recovery 1700000000123" "survives_recovery 1700000300123"
    by (rule survives_recovery_range; simp)+
  then show ?thesis
    using recovery_roundtrip_normalized [OF n] n by simp
qed

theorem recovery_roundtrip_counterexample:
  "start \<lparr>start = 0, end' = 180000\<rparr> < end' \<lparr>start = 0, end' = 180000\<rparr> \<and>
   getWorkPeriods (map parseLogLine (getLogLinesFromWorkPeriod \<lparr>start = 0, end' = 180000\<rparr>)) = [] \<and>
   getWorkPeriods (map parseLogLine (getLogLinesFromWorkPeriod \<lparr>start = 0, end' = 180000\<rparr>))
     \<noteq> [\<lparr>start = 0, end' = 180000\<rparr>]"
proof -
  have "getWorkPeriods (map parseLogLine (getLogLinesFromWorkPeriod \<lparr>start = 0, end' = 180000\<rparr>)) = []"
    by code_simp
  then show ?thesis by simp
qed

section \<open>Failed delivery\<close>

text \<open>
  C2 (as amended). When \<open>pages.create\<close> fails for an interval of the batch, the
  delivery step appends exactly two lines to the recovery log, \<open>idle \<rightarrow> work\<close> at the
  interval's start and \<open>work \<rightarrow> idle\<close> at its end. The interval is the normalized
  one (a whole number of minutes between 5 and 25), the only one the pipeline keeps,
  not the raw one; normalizing it again on a later run leaves it unchanged.
\<close>
theorem failed_delivery_requeues_normalized:
  assumes "wp \<in> set (getWorkPeriods logLines)"
    and "\<not> pagesCreate h (length (requests w)) (createWorkProperty h wp)"
  shows "failuresLog (deliver_step h w wp)
           = Some (getFileLines (failuresLog w) @
               [Json \<lparr>event = startStop, fromState = idle, toState = work,
                       timestamp = num_div (of_int (start wp)) 1000\<rparr>,
                Json \<lparr>event = startStop, fromState = work, toState = idle,
                       timestamp = num_div (of_int (end' wp)) 1000\<rparr>]) \<and>
         (\<exists>k. 5 \<le> k \<and> k \<le> 25 \<and> end' wp = start wp + k * MINUTE) \<and>
         normalizeWorkPeriod (start wp) (end' wp) = Some wp"
proof -
  from assms(1) obtain k where k: "5 \<le> k" "k \<le> 25" "end' wp = start wp + k * MINUTE"
    using getWorkPeriods_normalized by blast
  then have "wp = \<lparr>start = start wp, end' = start wp + k * MINUTE\<rparr>" by simp
  then have "normalizeWorkPeriod (start wp) (end' wp) = Some wp"
    using normalizeWorkPeriod_whole_minutes [OF k(1,2), of "start wp"] k(3) by simp
  moreover have "failuresLog (deliver_step h w wp)
           = Some (getFileLines (failuresLog w) @
               [Json \<lparr>event = startStop, fromState = idle, toState = work,
                       timestamp = num_div (of_int (start wp)) 1000\<rparr>,
                Json \<lparr>event = startStop, fromState = work, toState = idle,
                       timestamp = num_div (of_int (end' wp)) 1000\<rparr>])"
    using assms(2)
    by (simp add: deliver_step_def postWorkPeriod_def appendFile_def
        getLogLinesFromWorkPeriod_def)
  ultimately show ?thesis using k by blast
qed

theorem failed_delivery_requeues_normalized_witness:
  "\<lparr>start = 100000, end' = 760000\<rparr>
     \<in> set (getWorkPeriods [\<lparr>stopping = False, date = 100000\<rparr>, \<lparr>stopping = True, date = 750000\<rparr>]) \<and>
   failuresLog (deliver_step (example_host (\<lambda>n. False))
       \<lparr>primaryLog = Some [transition idle work 100, transition work idle 750],
        failuresLog = None, requests = []\<rparr> \<lparr>start = 100000, end' = 760000\<rparr>)
     = Some [transition idle work 100, transition work idle 760]"
proof -
  let ?w = "\<lparr>primaryLog = Some [transition idle work 100, transition work idle 750],
        failuresLog = None, requests = []\<rparr>"
  have m: "\<lparr>start = 100000, end' = 760000\<rparr>
     \<in> set (getWorkPeriods [\<lparr>stopping = False, date = 100000\<rparr>, \<lparr>stopping = True, date = 750000\<rparr>])"
    by code_simp
  have f: "\<not> pagesCreate (example_host (\<lambda>n. False)) (length (requests ?w))
      (createWorkProperty (example_host (\<lambda>n. False)) \<lparr>start = 100000, end' = 760000\<rparr>)"
    by (simp add: example_host_def)
  have "num_div (of_int 100000) 1000 = 100" "num_div (of_int 760000) 1000 = 760"
    by code_simp+
  then show ?thesis
    using failed_delivery_requeues_normalized [OF m f] m
    by (simp add: transition_def getFileLines_def)
qed

theorem requeue_raw_interval_counterexample:
  "map_parseLogLine [transition idle work 100, transition work idle 750]
     = Inr [\<lparr>stopping = False, date = 100000\<rparr>, \<lparr>stopping = True, date = 750000\<rparr>] \<and>
   failuresLog (snd (main (example_host (\<lambda>n. False)) example_env
       \<lparr>primaryLog = Some [transition idle work 100, transition work idle 750],
        failuresLog = None, requests = []\<rparr>))
     = Some (map Json (getLogLinesFromWorkPeriod \<lparr>start = 100000, end' = 760000\<rparr>)) \<and>
   failuresLog (snd (main (example_host (\<lambda>n. False)) example_env
       \<lparr>primaryLog = Some [transition idle work 100, transition work idle 750],
        failuresLog = None, requests = []\<rparr>))
     \<noteq> Some (map Json (getLogLinesFromWorkPeriod \<lparr>start = 100000, end' = 750000\<rparr>))"
  by code_simp

lemma reducer_loop_snoc:
  "reducer_loop s (logLines @ [line]) = reducer_step (reducer_loop s logLines) line"
  by (induction logLines arbitrary: s) simp_all

section \<open>Reducer: the state machine\<close>

lemma reducer_loop_append:
  "reducer_loop s (pre @ post) = reducer_loop (reducer_loop s pre) post"
  by (induction pre arbitrary: s) simp_all

lemma reducer_step_ignores_open:
  assumes "workStart s \<noteq> None" and "\<not> stopping line"
  shows "reducer_step s line = s"
  using assms by (simp add: reducer_step_def)

lemma reducer_step_ignores_idle:
  assumes "workStart s = None" and "stopping line"
  shows "reducer_step s line = s"
  using assms by (simp add: reducer_step_def)

lemma reducer_step_open_iff:
  "(workStart (reducer_step s line) \<noteq> None) = (\<not> stopping line)"
  by (cases "workStart s"; cases "stopping line")
    (simp_all add: reducer_step_def split: option.splits)

lemma reducer_loop_open_iff:
  "(workStart (reducer_loop s pre) \<noteq> None)
     = (if pre = [] then workStart s \<noteq> None else \<not> stopping (last pre))"
proof (induction pre rule: rev_induct)
  case Nil
  show ?case by simp
next
  case (snoc line pre)
  show ?case
    by (simp only: reducer_loop_snoc reducer_step_open_iff) simp
qed

lemma getWorkPeriods_ignores:
  assumes "reducer_step (reducer_loop \<lparr>workStart = None, workPeriods = []\<rparr> pre) line
             = reducer_loop \<lparr>workStart = None, workPeriods = []\<rparr> pre"
  shows "getWorkPeriods (pre @ line # post) = getWorkPeriods (pre @ post)"
  using assms by (simp add: getWorkPeriods_def reducer_loop_append)

text \<open>
  C4 (as amended). For every sequence of log lines at most one work interval is open
  at any point of the reduction: the state has the single slot \<open>workStart\<close>, and after
  the lines \<open>pre\<close> an interval is open exactly when \<open>pre\<close> ends with a non-stopping
  line. A non-stopping line that arrives while an interval is open is ignored: the
  state, and with it the open start, is kept, and the Reducer returns what it returns
  without that line. A stopping line that arrives while no interval is open is ignored
  in the same way. Lines work-open at \<open>t0\<close>, work-open at \<open>t5\<close>, idle at \<open>t10\<close> reduce to
  what the single pair \<open>(t0, t10)\<close> normalizes to: the one interval \<open>(t0, t10)\<close> when
  \<open>t10 - t0\<close> is a whole number of minutes from 5 to 25, as at minutes 0, 5 and 10; at
  seconds 0, 5 and 10 the Reducer returns nothing.
\<close>
theorem reducer_one_open_interval:
  "((workStart (reducer_loop \<lparr>workStart = None, workPeriods = []\<rparr> pre) \<noteq> None)
      = (pre \<noteq> [] \<and> \<not> stopping (last pre))) \<and>
   (workStart (reducer_loop \<lparr>workStart = None, workPeriods = []\<rparr> pre) \<noteq> None \<and>
    \<not> stopping line \<longrightarrow>
      reducer_loop \<lparr>workStart = None, workPeriods = []\<rparr> (pre @ [line])
        = reducer_loop \<lparr>workStart = None, workPeriods = []\<rparr> pre \<and>
      getWorkPeriods (pre @ line # post) = getWorkPeriods (pre @ post)) \<and>
   (workStart (reducer_loop \<lparr>workStart = None, workPeriods = []\<rparr> pre) = None \<and>
    stopping line \<longrightarrow>
      reducer_loop \<lparr>workStart = None, workPeriods = []\<rparr> (pre @ [line])
        = reducer_loop \<lparr>workStart = None, workPeriods = []\<rparr> pre \<and>
      getWorkPeriods (pre @ line # post) = getWorkPeriods (pre @ post)) \<and>
   getWorkPeriods [\<lparr>stopping = False, date = t0\<rparr>, \<lparr>stopping = False, date = t5\<rparr>,
                   \<lparr>stopping = True, date = t10\<rparr>]
     = (case normalizeWorkPeriod t0 t10 of None \<Rightarrow> [] | Some p \<Rightarrow> [p]) \<and>
   (5 \<le> k \<and> k \<le> 25 \<longrightarrow>
      getWorkPeriods [\<lparr>stopping = False, date = t0\<rparr>, \<lparr>stopping = False, date = t5\<rparr>,
                      \<lparr>stopping = True, date = t0 + k * MINUTE\<rparr>]
        = [\<lparr>start = t0, end' = t0 + k * MINUTE\<rparr>])"
proof -
  let ?init = "\<lparr>workStart = None, workPeriods = []\<rparr>"
  have open_iff: "(workStart (reducer_loop ?init pre) \<noteq> None)
      = (pre \<noteq> [] \<and> \<not> stopping (last pre))"
    using reducer_loop_open_iff [of ?init pre] by (cases "pre = []") simp_all
  have ignored: "reducer_loop ?init (pre @ [line]) = reducer_loop ?init pre \<and>
      getWorkPeriods (pre @ line # post) = getWorkPeriods (pre @ post)"
    if "reducer_step (reducer_loop ?init pre) line = reducer_loop ?init pre"
    using that getWorkPeriods_ignores [OF that] by (simp add: reducer_loop_snoc)
  have example: "getWorkPeriods [\<lparr>stopping = False, date = a\<rparr>, \<lparr>stopping = False, date = b\<rparr>,
                   \<lparr>stopping = True, date = c\<rparr>]
     = (case normalizeWorkPeriod a c of None \<Rightarrow> [] | Some p \<Rightarrow> [p])" for a b c
    by (simp add: getWorkPeriods_def reducer_step_def split: option.splits)
  have whole: "getWorkPeriods [\<lparr>stopping = False, date = t0\<rparr>, \<lparr>stopping = False, date = t5\<rparr>,
                      \<lparr>stopping = True, date = t0 + k * MINUTE\<rparr>]
        = [\<lparr>start = t0, end' = t0 + k * MINUTE\<rparr>]" if "5 \<le> k" "k \<le> 25"
    using normalizeWorkPeriod_whole_minutes [OF that, of t0] by (simp add: example)
  have while_open: "workStart (reducer_loop ?init pre) \<noteq> None \<and> \<not> stopping line \<longrightarrow>
      reducer_loop ?init (pre @ [line]) = reducer_loop ?init pre \<and>
      getWorkPeriods (pre @ line # post) = getWorkPeriods (pre @ post)"
  proof
    assume "workStart (reducer_loop ?init pre) \<noteq> None \<and> \<not> stopping line"
    then have "reducer_step (reducer_loop ?init pre) line = reducer_loop ?init pre"
      by (intro reducer_step_ignores_open) simp_all
    then show "reducer_loop ?init (pre @ [line]) = reducer_loop ?init pre \<and>
      getWorkPeriods (pre @ line # post) = getWorkPeriods (pre @ post)"
      by (rule ignored)
  qed
  have while_idle: "workStart (reducer_loop ?init pre) = None \<and> stopping line \<longrightarrow>
      reducer_loop ?init (pre @ [line]) = reducer_loop ?init pre \<and>
      getWorkPeriods (pre @ line # post) = getWorkPeriods (pre @ post)"
  proof
    assume "workStart (reducer_loop ?init pre) = None \<and> stopping line"
    then have "reducer_step (reducer_loop ?init pre) line = reducer_loop ?init pre"
      by (intro reducer_step_ignores_idle) simp_all
    then show "reducer_loop ?init (pre @ [line]) = reducer_loop ?init pre \<and>
      getWorkPeriods (pre @ line # post) = getWorkPeriods (pre @ post)"
      by (rule ignored)
  qed
  have minutes: "5 \<le> k \<and> k \<le> 25 \<longrightarrow>
      getWorkPeriods [\<lparr>stopping = False, date = t0\<rparr>, \<lparr>stopping = False, date = t5\<rparr>,
                      \<lparr>stopping = True, date = t0 + k * MINUTE\<rparr>]
        = [\<lparr>start = t0, end' = t0 + k * MINUTE\<rparr>]"
    using whole by blast
  note ex = example [of t0 t5 t10]
  show ?thesis
    by (intro conjI) (fact open_iff while_open while_idle ex minutes)+
qed

theorem reducer_one_open_interval_witness:
  "getWorkPeriods [\<lparr>stopping = False, date = 0\<rparr>, \<lparr>stopping = False, date = 300000\<rparr>,
                   \<lparr>stopping = True, date = 600000\<rparr>]
     = getWorkPeriods [\<lparr>stopping = False, date = 0\<rparr>, \<lparr>stopping = True, date = 600000\<rparr>] \<and>
   getWorkPeriods [\<lparr>stopping = True, date = 1000\<rparr>, \<lparr>stopping = False, date = 0\<rparr>,
                   \<lparr>stopping = True, date = 600000\<rparr>]
     = getWorkPeriods [\<lparr>stopping = False, date = 0\<rparr>, \<lparr>stopping = True, date = 600000\<rparr>] \<and>
   getWorkPeriods [\<lparr>stopping = False, date = 0\<rparr>, \<lparr>stopping = False, date = 300000\<rparr>,
                   \<lparr>stopping = True, date = 600000\<rparr>]
     = [\<lparr>start = 0, end' = 600000\<rparr>]"
proof -
  let ?init = "\<lparr>workStart = None, workPeriods = []\<rparr>"
  let ?a = "\<lparr>stopping = False, date = 0\<rparr>"
  let ?b = "\<lparr>stopping = False, date = 300000\<rparr>"
  let ?c = "\<lparr>stopping = True, date = 600000\<rparr>"
  let ?z = "\<lparr>stopping = True, date = 1000\<rparr>"
  have o: "workStart (reducer_loop ?init [?a]) \<noteq> None"
    by (simp add: reducer_step_def)
  have i: "workStart (reducer_loop ?init []) = None"
    by simp
  have nb: "\<not> stopping ?b" and sz: "stopping ?z" and k: "(5::int) \<le> 10 \<and> (10::int) \<le> 25"
    by simp_all
  have 1: "getWorkPeriods ([?a] @ ?b # [?c]) = getWorkPeriods ([?a] @ [?c])"
    using reducer_one_open_interval [of "[?a]" ?b "[?c]"] o nb by blast
  have 2: "getWorkPeriods ([] @ ?z # [?a, ?c]) = getWorkPeriods ([] @ [?a, ?c])"
    using reducer_one_open_interval [of "[]" ?z "[?a, ?c]"] i sz by blast
  have 3: "getWorkPeriods [?a, ?b, \<lparr>stopping = True, date = 0 + 10 * MINUTE\<rparr>]
      = [\<lparr>start = 0, end' = 0 + 10 * MINUTE\<rparr>]"
    using reducer_one_open_interval [of _ _ _ 0 300000 _ 10] k by blast
  from 1 2 3 show ?thesis
    by (simp add: MINUTE_def)
qed

theorem reducer_example_in_seconds_counterexample:
  "(0::int) < 5000 \<and> (5000::int) < 10000 \<and>
   getWorkPeriods [\<lparr>stopping = False, date = 0\<rparr>, \<lparr>stopping = False, date = 5000\<rparr>,
                   \<lparr>stopping = True, date = 10000\<rparr>] = [] \<and>
   getWorkPeriods [\<lparr>stopping = False, date = 0\<rparr>, \<lparr>stopping = False, date = 5000\<rparr>,
                   \<lparr>stopping = True, date = 10000\<rparr>] \<noteq> [\<lparr>start = 0, end' = 10000\<rparr>]"
proof -
  have "getWorkPeriods [\<lparr>stopping = False, date = 0\<rparr>, \<lparr>stopping = False, date = 5000\<rparr>,
                   \<lparr>stopping = True, date = 10000\<rparr>] = []"
    by code_simp
  then show ?thesis by simp
qed

section \<open>Title of the delivery record\<close>

lemma createWorkProperty_title_whole_seconds:
  assumes "\<bar>m\<bar> < 2 ^ 53" and "end' wp - start wp = m * 1000"
  shows "Name (createWorkProperty h wp)
           = hourglass @ numberToString h (num_div (of_int (end' wp - start wp)) 60000)"
proof -
  have "fl (of_int m) = of_int m" using assms(1) by (rule fl_of_int)
  moreover have "(of_int (m * 1000) :: rat) / 1000 = of_int m" by simp
  ultimately have "num_div (of_int (m * 1000)) 1000 = of_int m"
    by (simp only: num_div_def)
  moreover have "(of_int m :: rat) / 60 = of_int (m * 1000) / 60000" by simp
  ultimately have "num_div (num_div (of_int (m * 1000)) 1000) 60
      = num_div (of_int (m * 1000)) 60000"
    by (simp only: num_div_def)
  then show ?thesis
    by (simp add: createWorkProperty_def Let_def assms(2))
qed

text \<open>
  C9. For every interval the pipeline passes to \<open>createWorkProperty\<close> (the intervals
  of the batch), the title is the hourglass prefix followed by the text of the
  minutes value \<open>(end - start) / 60000\<close> of that interval, computed from its own
  duration and not from the period count of the normalizer.
\<close>
theorem delivery_record_title:
  assumes "wp \<in> set (getWorkPeriods logLines)"
  shows "Name (createWorkProperty h wp)
           = hourglass @ numberToString h (of_int (end' wp - start wp) / 60000)"
proof -
  from assms obtain k where k: "5 \<le> k" "k \<le> 25" "end' wp = start wp + k * MINUTE"
    using getWorkPeriods_normalized by blast
  have d: "end' wp - start wp = k * 60000"
    using k(3) by (simp add: MINUTE_def)
  have "\<bar>k * 60\<bar> < 2 ^ 53" "\<bar>k\<bar> < 2 ^ 53" using k(1,2) by simp_all
  then have fl: "fl (of_int (k * 60)) = of_int (k * 60)" "fl (of_int k) = of_int k"
    by (simp_all only: fl_of_int)
  have q: "(of_int (k * 60000) :: rat) / 1000 = of_int (k * 60)"
    "(of_int (k * 60) :: rat) / 60 = of_int k"
    by simp_all
  have "num_div (of_int (k * 60000)) 1000 = of_int (k * 60)"
    by (simp only: num_div_def q fl)
  moreover have "num_div (of_int (k * 60)) 60 = of_int k"
    by (simp only: num_div_def q fl)
  ultimately have "num_div (num_div (of_int (end' wp - start wp)) 1000) 60 = of_int k"
    by (simp only: d)
  moreover have "(of_int (end' wp - start wp) :: rat) / 60000 = of_int k"
    by (simp add: d)
  ultimately show ?thesis
    by (simp add: createWorkProperty_def Let_def)
qed

theorem delivery_record_title_witness:
  "\<lparr>start = 100000, end' = 760000\<rparr>
     \<in> set (getWorkPeriods [\<lparr>stopping = False, date = 100000\<rparr>, \<lparr>stopping = True, date = 750000\<rparr>]) \<and>
   Name (createWorkProperty (example_host (\<lambda>n. True)) \<lparr>start = 100000, end' = 760000\<rparr>)
     = hourglass @ ''11'' \<and>
   \<lparr>start = 0, end' = 1500000\<rparr>
     \<in> set (getWorkPeriods [\<lparr>stopping = False, date = 0\<rparr>, \<lparr>stopping = True, date = 1800000\<rparr>]) \<and>
   Name (createWorkProperty (example_host (\<lambda>n. True)) \<lparr>start = 0, end' = 1500000\<rparr>)
     = hourglass @ ''25''"
proof -
  have m: "\<lparr>start = 100000, end' = 760000\<rparr>
     \<in> set (getWorkPeriods [\<lparr>stopping = False, date = 100000\<rparr>, \<lparr>stopping = True, date = 750000\<rparr>])"
    by code_simp
  have c: "\<lparr>start = 0, end' = 1500000\<rparr>
     \<in> set (getWorkPeriods [\<lparr>stopping = False, date = 0\<rparr>, \<lparr>stopping = True, date = 1800000\<rparr>])"
    by code_simp
  show ?thesis
    using delivery_record_title [OF m, of "example_host (\<lambda>n. True)"]
      delivery_record_title [OF c, of "example_host (\<lambda>n. True)"] m c
    by (simp add: example_host_def)
qed

end
